theory Spec2Isabelle
  imports Complex_Main "HOL-Library.Multiset" "HOL-Library.Sublist"
begin

section \<open>Data model\<close>

text \<open>
  The model starts after the column renaming and the coercions of lines 46-62 of
  \<^verbatim>\<open>matcher.py\<close>: an amount is a number or NaN (\<open>None\<close>), a date is a timestamp in
  nanoseconds or NaT (\<open>None\<close>). Amounts and confidences are exact rationals standing for
  the float64 values; the remainder loop is also given with the amounts as numpy left
  them and with numpy's own comparison and subtraction (\<open>remaining_records_np\<close>), so
  the amount cell is a type parameter of the rows. The identifying columns and
  \<open>currency\<close> hold text; a name is text or a missing value (\<open>None\<close>, anything that is
  not a \<^verbatim>\<open>str\<close>). The columns \<open>memo\<close> and \<open>reference_number\<close> are optional: \<open>None\<close> is a
  row without the key, \<open>Some PyNaN\<close> a row whose cell is the missing-value marker. A
  character is a code point below 256. A frame is the list of its rows, in order.
  Failures of the file system in \<^verbatim>\<open>os.makedirs\<close> and \<^verbatim>\<open>to_csv\<close> are outside the model.
\<close>

datatype pyval = PyStr string | PyNaN

datatype error = IndexError

record 'a invoice_row =
  invoice_id :: string
  customer_name :: "string option"
  invoice_amount :: 'a
  invoice_currency :: string
  invoice_date :: "int option"

type_synonym invoice = "rat option invoice_row"

record 'a payment_row =
  payment_id :: string
  payer_name :: "string option"
  memo :: "pyval option"
  reference_number :: "pyval option"
  payment_amount :: 'a
  payment_currency :: string
  payment_date :: "int option"

type_synonym payment = "rat option payment_row"

text \<open>A row of the \<^verbatim>\<open>matches\<close> list (the dictionaries appended by the three scans).\<close>

record match =
  m_payment_id :: string
  m_invoice_id :: string
  confidence :: rat
  rationale :: string

text \<open>A row of \<^verbatim>\<open>remaining_records\<close>.\<close>

record 'a remainder_row =
  r_invoice_id :: string
  r_customer_name :: "string option"
  r_invoice_amount :: 'a
  r_payment_id :: string
  r_payment_amount :: 'a
  remaining_amount :: 'a
  r_currency :: string

type_synonym remainder = "rat option remainder_row"

section \<open>Strings\<close>

text \<open>\<^verbatim>\<open>str.isspace\<close> on the code points below 256.\<close>

definition is_space :: "char \<Rightarrow> bool" where
  "is_space c = ((of_char c :: nat) \<in> {9, 10, 11, 12, 13, 28, 29, 30, 31, 32, 133, 160})"

definition strip :: "string \<Rightarrow> string" where
  "strip s = rev (dropWhile is_space (rev (dropWhile is_space s)))"

text \<open>
  \<^verbatim>\<open>str.replace(old, new)\<close>: every non-overlapping occurrence, scanning from the left.
  With an empty \<open>old\<close> Python puts \<open>new\<close> before every character and at the end.
\<close>

function replace :: "string \<Rightarrow> string \<Rightarrow> string \<Rightarrow> string" where
  "replace old new s =
     (if old = [] then new @ concat (map (\<lambda>c. c # new) s)
      else if s = [] then []
      else if prefix old s then new @ replace old new (drop (length old) s)
      else hd s # replace old new (tl s))"
  by pat_completeness auto
termination
  by (relation "measure (\<lambda>(old, new, s). length s)") auto

declare replace.simps [simp del]

text \<open>\<^verbatim>\<open>str.lower\<close> on the code points below 256: A-Z and the Latin-1 capitals.\<close>

definition lower_char :: "char \<Rightarrow> char" where
  "lower_char c =
     (let n = (of_char c :: nat)
      in if (65 \<le> n \<and> n \<le> 90) \<or> (192 \<le> n \<and> n \<le> 222 \<and> n \<noteq> 215)
         then char_of (n + 32) else c)"

definition lower :: "string \<Rightarrow> string" where
  "lower s = map lower_char s"

text \<open>\<^verbatim>\<open>baseline_normalize_name\<close>: a value that is not a \<^verbatim>\<open>str\<close> gives the empty string.\<close>

definition baseline_normalize_name :: "string option \<Rightarrow> string" where
  "baseline_normalize_name name =
     (case name of
        None \<Rightarrow> []
      | Some s \<Rightarrow>
          lower
            (replace ''Ltd.'' ''Ltd''
              (replace ''Limited'' ''Ltd''
                (replace ''Pvt. Ltd'' ''Pvt Ltd''
                  (replace ''Private Limited'' ''Pvt Ltd'' (strip s))))))"

text \<open>The \<^verbatim>\<open>in\<close> test on strings: \<open>contains t s\<close> is \<^verbatim>\<open>s in t\<close>.\<close>

fun contains :: "string \<Rightarrow> string \<Rightarrow> bool" where
  "contains [] s = (s = [])"
| "contains (c # t) s = (prefix s (c # t) \<or> contains t s)"

text \<open>A string that \<open>strip\<close> leaves as it is: empty, or with no space at either end.\<close>

definition no_edge_space :: "string \<Rightarrow> bool" where
  "no_edge_space s = (s = [] \<or> (\<not> is_space (hd s) \<and> \<not> is_space (last s)))"

text \<open>\<^verbatim>\<open>str(v)\<close> of a cell, and \<^verbatim>\<open>row.get(key, default)\<close>.\<close>

fun py_str :: "pyval \<Rightarrow> string" where
  "py_str (PyStr s) = s"
| "py_str PyNaN = ''nan''"

fun get_or :: "pyval option \<Rightarrow> pyval \<Rightarrow> pyval" where
  "get_or None d = d"
| "get_or (Some v) d = v"

section \<open>Arithmetic with missing values\<close>

text \<open>
  NaN and NaT are \<open>None\<close>: a difference with a missing operand is missing, and every
  comparison with a missing operand is false. On values that are present the operations
  are exact, which the code's are not always: a float64 difference is this difference
  rounded, and an integer column is compared with a float column after conversion to
  float64. What is proved of the value of a difference is therefore proved of
  \<open>remaining_records_np\<close>, where the operations are left open.
\<close>

definition nan_sub :: "'a::minus option \<Rightarrow> 'a option \<Rightarrow> 'a option" where
  "nan_sub a b = (case (a, b) of (Some x, Some y) \<Rightarrow> Some (x - y) | _ \<Rightarrow> None)"

definition nan_abs :: "'a::abs option \<Rightarrow> 'a option" where
  "nan_abs a = map_option abs a"

definition nan_less :: "'a::ord option \<Rightarrow> 'a option \<Rightarrow> bool" where
  "nan_less a b = (case (a, b) of (Some x, Some y) \<Rightarrow> x < y | _ \<Rightarrow> False)"

definition nan_le :: "'a::ord option \<Rightarrow> 'a option \<Rightarrow> bool" where
  "nan_le a b = (case (a, b) of (Some x, Some y) \<Rightarrow> x \<le> y | _ \<Rightarrow> False)"

text \<open>\<^verbatim>\<open>Timedelta.days\<close>: whole days, rounded down; \<^verbatim>\<open>NaT.days\<close> is NaN.\<close>

definition days :: "int option \<Rightarrow> int option" where
  "days d = map_option (\<lambda>t. t div 86400000000000) d"

section \<open>The three scans\<close>

text \<open>Both loops of a scan: payments outside, invoices inside, appending what the body gives.\<close>

definition scan :: "(payment \<Rightarrow> invoice \<Rightarrow> match list) \<Rightarrow> invoice list \<Rightarrow> payment list \<Rightarrow> match list" where
  "scan body invoices payments =
     concat (map (\<lambda>pay. concat (map (\<lambda>invo. body pay invo) invoices)) payments)"

definition memo_text :: "payment \<Rightarrow> string" where
  "memo_text pay =
     py_str (get_or (memo pay) (PyStr [])) @ '' '' @ py_str (get_or (reference_number pay) (PyStr []))"

definition direct_body :: "payment \<Rightarrow> invoice \<Rightarrow> match list" where
  "direct_body pay invo =
     (if contains (memo_text pay) (invoice_id invo)
      then [\<lparr>m_payment_id = payment_id pay, m_invoice_id = invoice_id invo, confidence = 1,
             rationale = ''Direct invoice_id found in memo/reference''\<rparr>]
      else [])"

definition window_days :: int where
  "window_days = 7"

definition amount_date_body :: "payment \<Rightarrow> invoice \<Rightarrow> match list" where
  "amount_date_body pay invo =
     (if invoice_currency invo = payment_currency pay
         \<and> nan_le (nan_abs (days (nan_sub (payment_date pay) (invoice_date invo)))) (Some window_days)
         \<and> nan_less (nan_abs (nan_sub (invoice_amount invo) (payment_amount pay))) (Some (1 / 100))
      then [\<lparr>m_payment_id = payment_id pay, m_invoice_id = invoice_id invo, confidence = 8 / 10,
             rationale = ''Exact amount and near-date ('' @ [CHR 0xB1] @ ''7 days)''\<rparr>]
      else [])"

definition name_amount_body :: "payment \<Rightarrow> invoice \<Rightarrow> match list" where
  "name_amount_body pay invo =
     (if baseline_normalize_name (payer_name pay) = baseline_normalize_name (customer_name invo)
      then
        (let amount_diff = nan_sub (payment_amount pay) (invoice_amount invo)
         in if nan_less (nan_abs amount_diff) (Some (1 / 100))
            then [\<lparr>m_payment_id = payment_id pay, m_invoice_id = invoice_id invo,
                   confidence = 7 / 10, rationale = ''Name-normalized and amount match''\<rparr>]
            else if nan_less (payment_amount pay) (invoice_amount invo)
            then [\<lparr>m_payment_id = payment_id pay, m_invoice_id = invoice_id invo,
                   confidence = 5 / 10, rationale = ''Partial payment - lower amount''\<rparr>]
            else if nan_less (invoice_amount invo) (payment_amount pay)
            then [\<lparr>m_payment_id = payment_id pay, m_invoice_id = invoice_id invo,
                   confidence = 4 / 10, rationale = ''Overpayment - higher amount''\<rparr>]
            else [])
      else [])"

text \<open>The list \<^verbatim>\<open>matches\<close> when the three scans are done (line 119).\<close>

definition candidates :: "invoice list \<Rightarrow> payment list \<Rightarrow> match list" where
  "candidates invoices payments =
     scan direct_body invoices payments
     @ scan amount_date_body invoices payments
     @ scan name_amount_body invoices payments"

section \<open>Sorting and deduplication\<close>

text \<open>
  \<^verbatim>\<open>sort_values("confidence", ascending=False)\<close> is a call into pandas with the default
  \<^verbatim>\<open>kind="quicksort"\<close>. It is a parameter of the model. What the call promises is
  \<open>sort_values_spec\<close>: the same rows, in descending order of confidence. Of the sorting
  kinds of pandas only \<^verbatim>\<open>mergesort\<close> and \<^verbatim>\<open>stable\<close> promise \<open>stable_sort\<close> as well.
\<close>

definition sort_values_spec :: "(match list \<Rightarrow> match list) \<Rightarrow> bool" where
  "sort_values_spec srt =
     (\<forall>xs. mset (srt xs) = mset xs \<and> sorted_wrt (\<lambda>a b. confidence b \<le> confidence a) (srt xs))"

definition stable_sort :: "(match list \<Rightarrow> match list) \<Rightarrow> bool" where
  "stable_sort srt =
     (\<forall>xs k. filter (\<lambda>m. confidence m = k) (srt xs) = filter (\<lambda>m. confidence m = k) xs)"

text \<open>A sorting function that keeps that promise and is stable.\<close>

definition sort_values_stable :: "match list \<Rightarrow> match list" where
  "sort_values_stable xs = sort_key (\<lambda>m. - confidence m) xs"

text \<open>\<^verbatim>\<open>drop_duplicates(subset=["payment_id"], keep="first")\<close>.\<close>

fun drop_duplicates_seen :: "string list \<Rightarrow> match list \<Rightarrow> match list" where
  "drop_duplicates_seen seen [] = []"
| "drop_duplicates_seen seen (m # ms) =
     (if m_payment_id m \<in> set seen then drop_duplicates_seen seen ms
      else m # drop_duplicates_seen (m_payment_id m # seen) ms)"

definition drop_duplicates :: "match list \<Rightarrow> match list" where
  "drop_duplicates ms = drop_duplicates_seen [] ms"

text \<open>Lines 120-123: an empty frame is neither sorted nor deduplicated.\<close>

definition final_matches :: "(match list \<Rightarrow> match list) \<Rightarrow> match list \<Rightarrow> match list" where
  "final_matches sort_values ms = (if ms \<noteq> [] then drop_duplicates (sort_values ms) else ms)"

section \<open>Remainders and the whole run\<close>

text \<open>\<^verbatim>\<open>frame.iloc[0]\<close> raises \<^verbatim>\<open>IndexError\<close> on an empty frame.\<close>

definition iloc0 :: "'a list \<Rightarrow> error + 'a" where
  "iloc0 xs = (case xs of [] \<Rightarrow> Inl IndexError | x # _ \<Rightarrow> Inr x)"

definition remaining_row :: "invoice list \<Rightarrow> payment list \<Rightarrow> match \<Rightarrow> error + remainder list" where
  "remaining_row invoices payments row =
     (case iloc0 (filter (\<lambda>p. payment_id p = m_payment_id row) payments) of
        Inl e \<Rightarrow> Inl e
      | Inr pay \<Rightarrow>
          (case iloc0 (filter (\<lambda>i. invoice_id i = m_invoice_id row) invoices) of
             Inl e \<Rightarrow> Inl e
           | Inr invo \<Rightarrow>
               Inr (if nan_less (payment_amount pay) (invoice_amount invo)
                    then [\<lparr>r_invoice_id = invoice_id invo,
                           r_customer_name = customer_name invo,
                           r_invoice_amount = invoice_amount invo,
                           r_payment_id = payment_id pay,
                           r_payment_amount = payment_amount pay,
                           remaining_amount = nan_sub (invoice_amount invo) (payment_amount pay),
                           r_currency = invoice_currency invo\<rparr>]
                    else [])))"

fun remaining_records :: "invoice list \<Rightarrow> payment list \<Rightarrow> match list \<Rightarrow> error + remainder list" where
  "remaining_records invoices payments [] = Inr []"
| "remaining_records invoices payments (row # rows) =
     (case remaining_row invoices payments row of
        Inl e \<Rightarrow> Inl e
      | Inr rs \<Rightarrow>
          (case remaining_records invoices payments rows of
             Inl e \<Rightarrow> Inl e
           | Inr rest \<Rightarrow> Inr (rs @ rest)))"

text \<open>
  Lines 134-147 once more, with the amounts as numpy left them: an amount cell is a value
  of any type (a float64, int64 or uint64 scalar, NaN included), \<open>lt\<close> is the
  comparison \<^verbatim>\<open>pay["amount"] < inv["amount"]\<close> and \<open>sub\<close> the subtraction
  \<^verbatim>\<open>inv["amount"] - pay["amount"]\<close> as numpy evaluates them. Nothing is assumed of either.
  With \<open>nan_less\<close> and \<open>nan_sub\<close> on exact amounts this is \<open>remaining_records\<close>.
\<close>

definition remaining_row_np ::
  "('a \<Rightarrow> 'a \<Rightarrow> bool) \<Rightarrow> ('a \<Rightarrow> 'a \<Rightarrow> 'a) \<Rightarrow>
   'a invoice_row list \<Rightarrow> 'a payment_row list \<Rightarrow> match \<Rightarrow> error + 'a remainder_row list" where
  "remaining_row_np lt sub invoices payments row =
     (case iloc0 (filter (\<lambda>p. payment_id p = m_payment_id row) payments) of
        Inl e \<Rightarrow> Inl e
      | Inr pay \<Rightarrow>
          (case iloc0 (filter (\<lambda>i. invoice_id i = m_invoice_id row) invoices) of
             Inl e \<Rightarrow> Inl e
           | Inr invo \<Rightarrow>
               Inr (if lt (payment_amount pay) (invoice_amount invo)
                    then [\<lparr>r_invoice_id = invoice_id invo,
                           r_customer_name = customer_name invo,
                           r_invoice_amount = invoice_amount invo,
                           r_payment_id = payment_id pay,
                           r_payment_amount = payment_amount pay,
                           remaining_amount = sub (invoice_amount invo) (payment_amount pay),
                           r_currency = invoice_currency invo\<rparr>]
                    else [])))"

fun remaining_records_np ::
  "('a \<Rightarrow> 'a \<Rightarrow> bool) \<Rightarrow> ('a \<Rightarrow> 'a \<Rightarrow> 'a) \<Rightarrow>
   'a invoice_row list \<Rightarrow> 'a payment_row list \<Rightarrow> match list \<Rightarrow> error + 'a remainder_row list" where
  "remaining_records_np lt sub invoices payments [] = Inr []"
| "remaining_records_np lt sub invoices payments (row # rows) =
     (case remaining_row_np lt sub invoices payments row of
        Inl e \<Rightarrow> Inl e
      | Inr rs \<Rightarrow>
          (case remaining_records_np lt sub invoices payments rows of
             Inl e \<Rightarrow> Inl e
           | Inr rest \<Rightarrow> Inr (rs @ rest)))"

text \<open>
  What the function does besides returning: \<^verbatim>\<open>os.makedirs\<close>, \<^verbatim>\<open>to_csv\<close> and the two
  \<^verbatim>\<open>print\<close> calls (\<open>PrintSaved\<close> is the message that the file was saved, \<open>PrintNone\<close>
  the message that there is no remaining payment).
\<close>

datatype effect = MakeDirs string | ToCsv string "remainder list" | PrintSaved | PrintNone

definition report :: "remainder list \<Rightarrow> effect list" where
  "report remaining =
     (if remaining \<noteq> []
      then [MakeDirs ''out'', ToCsv ''out/remaining_payments.csv'' remaining, PrintSaved]
      else [PrintNone])"

text \<open>The tuple that \<^verbatim>\<open>match_records\<close> returns.\<close>

record outcome =
  matches_df :: "match list"
  unmatched_payments :: "payment list"
  unmatched_invoices :: "invoice list"

definition match_records ::
  "(match list \<Rightarrow> match list) \<Rightarrow> invoice list \<Rightarrow> payment list \<Rightarrow> error + (outcome \<times> effect list)" where
  "match_records sort_values invoices payments =
     (let matches = final_matches sort_values (candidates invoices payments);
          matched_payment_ids = set (map m_payment_id matches);
          matched_invoice_ids = set (map m_invoice_id matches)
      in case remaining_records invoices payments matches of
           Inl e \<Rightarrow> Inl e
         | Inr remaining \<Rightarrow>
             Inr (\<lparr>matches_df = matches,
                   unmatched_payments = filter (\<lambda>p. payment_id p \<notin> matched_payment_ids) payments,
                   unmatched_invoices = filter (\<lambda>i. invoice_id i \<notin> matched_invoice_ids) invoices\<rparr>,
                  report remaining))"

text \<open>
  What a row of the final frame adds to \<^verbatim>\<open>remaining_records\<close>, written with the
  amounts that are present: the first payment and the first invoice with the row's ids,
  and a record when the payment is below the invoice.
\<close>

abbreviation expected_remainder :: "invoice list \<Rightarrow> payment list \<Rightarrow> match \<Rightarrow> remainder list" where
  "expected_remainder invoices payments row \<equiv>
     (case (find (\<lambda>p. payment_id p = m_payment_id row) payments,
            find (\<lambda>i. invoice_id i = m_invoice_id row) invoices) of
        (Some pay, Some invo) \<Rightarrow>
          (case (payment_amount pay, invoice_amount invo) of
             (Some a, Some b) \<Rightarrow>
               if a < b
               then [\<lparr>r_invoice_id = invoice_id invo, r_customer_name = customer_name invo,
                      r_invoice_amount = Some b, r_payment_id = payment_id pay,
                      r_payment_amount = Some a, remaining_amount = Some (b - a),
                      r_currency = invoice_currency invo\<rparr>]
               else []
           | _ \<Rightarrow> [])
      | _ \<Rightarrow> [])"


section \<open>Concrete inputs\<close>

text \<open>Dates are days since 1970-01-01 times the nanoseconds of a day: 2024-01-01 is day 19723.\<close>

text \<open>Scenario A of the specification.\<close>

definition inv1 :: invoice where
  "inv1 = \<lparr>invoice_id = ''INV-1'', customer_name = None, invoice_amount = Some 100,
            invoice_currency = ''USD'', invoice_date = Some (19723 * 86400000000000)\<rparr>"

definition pay1 :: payment where
  "pay1 = \<lparr>payment_id = ''PAY-1'', payer_name = None, memo = Some (PyStr ''paid INV-1''),
            reference_number = Some (PyStr []), payment_amount = Some 100,
            payment_currency = ''USD'', payment_date = Some (19727 * 86400000000000)\<rparr>"

text \<open>Scenario B of the specification.\<close>

definition inv2 :: invoice where
  "inv2 = \<lparr>invoice_id = ''INV-2'', customer_name = Some ''Acme Private Limited'',
            invoice_amount = Some 50, invoice_currency = ''USD'',
            invoice_date = Some (19754 * 86400000000000)\<rparr>"

definition pay2 :: payment where
  "pay2 = \<lparr>payment_id = ''PAY-2'', payer_name = Some ''acme pvt ltd'', memo = Some (PyStr []),
            reference_number = Some (PyStr []), payment_amount = Some 30,
            payment_currency = ''USD'', payment_date = Some (19773 * 86400000000000)\<rparr>"

definition match2 :: match where
  "match2 = \<lparr>m_payment_id = ''PAY-2'', m_invoice_id = ''INV-2'', confidence = 5 / 10,
              rationale = ''Partial payment - lower amount''\<rparr>"

definition remainder2 :: remainder where
  "remainder2 = \<lparr>r_invoice_id = ''INV-2'', r_customer_name = Some ''Acme Private Limited'',
                  r_invoice_amount = Some 50, r_payment_id = ''PAY-2'',
                  r_payment_amount = Some 30, remaining_amount = Some 20, r_currency = ''USD''\<rparr>"

text \<open>One payment whose memo names two invoices: two candidates of confidence 1.\<close>

definition inv_a :: invoice where
  "inv_a = \<lparr>invoice_id = ''INV-A'', customer_name = Some ''Alpha'', invoice_amount = Some 10,
             invoice_currency = ''USD'', invoice_date = None\<rparr>"

definition inv_b :: invoice where
  "inv_b = \<lparr>invoice_id = ''INV-B'', customer_name = Some ''Beta'', invoice_amount = Some 20,
             invoice_currency = ''USD'', invoice_date = None\<rparr>"

definition pay_t :: payment where
  "pay_t = \<lparr>payment_id = ''PAY-T'', payer_name = Some ''Gamma'',
             memo = Some (PyStr ''INV-A INV-B''), reference_number = None,
             payment_amount = Some 30, payment_currency = ''USD'', payment_date = None\<rparr>"

definition match_a :: match where
  "match_a = \<lparr>m_payment_id = ''PAY-T'', m_invoice_id = ''INV-A'', confidence = 1,
               rationale = ''Direct invoice_id found in memo/reference''\<rparr>"

definition match_b :: match where
  "match_b = \<lparr>m_payment_id = ''PAY-T'', m_invoice_id = ''INV-B'', confidence = 1,
               rationale = ''Direct invoice_id found in memo/reference''\<rparr>"

text \<open>A payment that is 1/128 short of its invoice (both amounts are exact in float64).\<close>

definition inv9 :: invoice where
  "inv9 = \<lparr>invoice_id = ''INV-9'', customer_name = Some ''Delta'', invoice_amount = Some 100,
            invoice_currency = ''USD'', invoice_date = None\<rparr>"


text \<open>
  A payment row read from a file whose memo and reference cells are empty (pandas reads
  an empty cell as NaN) and whose amount did not parse, and an invoice with the id \<open>an\<close>.
\<close>

definition pay_nan :: payment where
  "pay_nan = \<lparr>payment_id = ''PAY-N'', payer_name = Some ''Delta'', memo = Some PyNaN,
               reference_number = Some PyNaN, payment_amount = None,
               payment_currency = ''USD'', payment_date = Some (19723 * 86400000000000)\<rparr>"

definition inv_an :: invoice where
  "inv_an = \<lparr>invoice_id = ''an'', customer_name = Some ''Delta'', invoice_amount = Some 100,
              invoice_currency = ''USD'', invoice_date = Some (19723 * 86400000000000)\<rparr>"

text \<open>
  Ten invoices of 100 for one customer and two payments of that customer, of 50 and of
  100, sixty days later: twenty candidates from the name scan, ten for each payment, the
  ten of a payment with one confidence.
\<close>

definition acme_ids :: "string list" where
  "acme_ids = [''INV-01'', ''INV-02'', ''INV-03'', ''INV-04'', ''INV-05'',
               ''INV-06'', ''INV-07'', ''INV-08'', ''INV-09'', ''INV-10'']"

definition acme_invoices :: "invoice list" where
  "acme_invoices =
     map (\<lambda>i. \<lparr>invoice_id = i, customer_name = Some ''Acme Ltd'', invoice_amount = Some 100,
                invoice_currency = ''USD'', invoice_date = Some (19723 * 86400000000000)\<rparr>)
       acme_ids"

definition acme_payments :: "payment list" where
  "acme_payments =
     [\<lparr>payment_id = ''PAY-1'', payer_name = Some ''Acme Ltd'', memo = Some PyNaN,
       reference_number = Some PyNaN, payment_amount = Some 50, payment_currency = ''USD'',
       payment_date = Some (19783 * 86400000000000)\<rparr>,
      \<lparr>payment_id = ''PAY-2'', payer_name = Some ''Acme Ltd'', memo = Some PyNaN,
       reference_number = Some PyNaN, payment_amount = Some 100, payment_currency = ''USD'',
       payment_date = Some (19783 * 86400000000000)\<rparr>]"

section \<open>Name normalisation\<close>

lemma replace_absent:
  "c \<in> set old \<Longrightarrow> c \<notin> set s \<Longrightarrow> replace old new s = s"
proof (induction old new s rule: replace.induct)
  case (1 old new s)
  have ne: "old \<noteq> []" using "1.prems" by auto
  show ?case
  proof (cases "s = []")
    case True
    then show ?thesis using ne by (simp add: replace.simps)
  next
    case False
    have np: "\<not> prefix old s"
      using "1.prems" by (auto dest: set_mono_prefix)
    have "c \<notin> set (tl s)" using "1.prems"(2) False by (auto dest: list.set_sel(2))
    then have "replace old new (tl s) = tl s"
      using "1.IH"(2)[OF ne False np "1.prems"(1)] by simp
    then show ?thesis using ne False np by (subst replace.simps) simp
  qed
qed

lemma lower_char_not_upper: "of_char (lower_char c) \<notin> {65..(90::nat)}"
  unfolding lower_char_def Let_def by auto

lemma lower_char_idem: "lower_char (lower_char c) = lower_char c"
  unfolding lower_char_def Let_def by auto

lemma is_space_lower_char: "is_space (lower_char c) = is_space c"
  unfolding lower_char_def Let_def is_space_def by auto

lemma strip_no_edge_space: "no_edge_space (strip s)"
proof -
  let ?a = "dropWhile is_space s"
  let ?b = "dropWhile is_space (rev ?a)"
  show ?thesis
  proof (cases "?b = []")
    case True
    then show ?thesis by (simp add: strip_def no_edge_space_def)
  next
    case False
    then have b: "\<not> is_space (hd ?b)" by (rule hd_dropWhile)
    from False have a_ne: "?a \<noteq> []" by (cases "?a = []") simp_all
    then have a: "\<not> is_space (hd ?a)" by (rule hd_dropWhile)
    have "last ?b = last (rev ?a)"
      using False by (metis dropWhile_eq_Nil_conv last_appendR takeWhile_dropWhile_id)
    also have "\<dots> = hd ?a" using a_ne by (simp add: last_rev)
    finally have "\<not> is_space (last ?b)" using a by simp
    then show ?thesis using False b
      by (simp add: strip_def no_edge_space_def hd_rev last_rev)
  qed
qed

lemma strip_id: "no_edge_space s \<Longrightarrow> strip s = s"
proof (cases "s = []")
  case True
  then show ?thesis by (simp add: strip_def)
next
  case False
  assume "no_edge_space s"
  with False have h: "\<not> is_space (hd s)" and l: "\<not> is_space (last s)"
    by (auto simp: no_edge_space_def)
  from False h have 1: "dropWhile is_space s = s" by (cases s) auto
  from False l have 2: "dropWhile is_space (rev s) = rev s"
    by (cases "rev s") (auto simp: last_rev hd_rev dest!: arg_cong[where f=hd])
  show ?thesis by (simp add: strip_def 1 2)
qed

lemma replace_last:
  "old \<noteq> [] \<Longrightarrow> new \<noteq> [] \<Longrightarrow> \<not> is_space (last new) \<Longrightarrow> s \<noteq> [] \<Longrightarrow> \<not> is_space (last s)
   \<Longrightarrow> replace old new s \<noteq> [] \<and> \<not> is_space (last (replace old new s))"
proof (induction old new s rule: replace.induct)
  case (1 old new s)
  show ?case
  proof (cases "prefix old s")
    case True
    then have eq: "replace old new s = new @ replace old new (drop (length old) s)"
      using "1.prems" by (subst replace.simps) simp
    show ?thesis
    proof (cases "drop (length old) s = []")
      case True
      then have "replace old new (drop (length old) s) = []"
        using "1.prems" by (simp add: replace.simps)
      then show ?thesis using eq "1.prems" by simp
    next
      case False
      have "last (drop (length old) s) = last s" using False by simp
      then have "replace old new (drop (length old) s) \<noteq> [] \<and>
          \<not> is_space (last (replace old new (drop (length old) s)))"
        using "1.IH"(1)[OF "1.prems"(1) "1.prems"(4) True "1.prems"(1,2,3) False] "1.prems"(5)
        by simp
      then show ?thesis using eq by simp
    qed
  next
    case np: False
    then have eq: "replace old new s = hd s # replace old new (tl s)"
      using "1.prems" by (subst replace.simps) simp
    show ?thesis
    proof (cases "tl s = []")
      case True
      then have "replace old new (tl s) = []" using "1.prems" by (simp add: replace.simps)
      moreover have "last s = hd s" using True "1.prems"(4) by (cases s) auto
      ultimately show ?thesis using eq "1.prems" by simp
    next
      case False
      have "last (tl s) = last s" using False "1.prems"(4) by (cases s) auto
      then have "replace old new (tl s) \<noteq> [] \<and> \<not> is_space (last (replace old new (tl s)))"
        using "1.IH"(2)[OF "1.prems"(1) "1.prems"(4) np "1.prems"(1,2,3) False] "1.prems"(5)
        by simp
      then show ?thesis using eq by simp
    qed
  qed
qed

lemma replace_hd:
  "old \<noteq> [] \<Longrightarrow> new \<noteq> [] \<Longrightarrow> \<not> is_space (hd new) \<Longrightarrow> s \<noteq> [] \<Longrightarrow> \<not> is_space (hd s)
   \<Longrightarrow> \<not> is_space (hd (replace old new s))"
  by (subst replace.simps) simp

lemma replace_Nil: "old \<noteq> [] \<Longrightarrow> replace old new [] = []"
  by (simp add: replace.simps)

lemma replace_no_edge_space:
  assumes "old \<noteq> []" "new \<noteq> []" "\<not> is_space (hd new)" "\<not> is_space (last new)"
    and "no_edge_space s"
  shows "no_edge_space (replace old new s)"
proof (cases "s = []")
  case True
  then show ?thesis using assms(1) by (simp add: replace_Nil no_edge_space_def)
next
  case False
  then show ?thesis
    using assms replace_last[of old new s] replace_hd[of old new s]
    by (simp add: no_edge_space_def)
qed

lemma lower_no_edge_space: "no_edge_space s \<Longrightarrow> no_edge_space (lower s)"
  by (cases "s = []") (simp_all add: no_edge_space_def lower_def hd_map last_map is_space_lower_char)

lemma lower_idem: "lower (lower s) = lower s"
  by (simp add: lower_def lower_char_idem)

lemma lower_no_capital:
  assumes "(of_char c :: nat) \<in> {65..90}"
  shows "c \<notin> set (lower s)"
proof
  assume "c \<in> set (lower s)"
  then obtain d where "c = lower_char d" by (auto simp: lower_def)
  then show False using assms lower_char_not_upper[of d] by simp
qed

lemma normalize_fixed:
  assumes "no_edge_space u"
  shows "baseline_normalize_name (Some (lower u)) = lower u"
proof -
  let ?t = "lower u"
  have P: "CHR ''P'' \<notin> set ?t" by (rule lower_no_capital) simp
  have L: "CHR ''L'' \<notin> set ?t" by (rule lower_no_capital) simp
  have 0: "strip ?t = ?t" by (rule strip_id) (rule lower_no_edge_space[OF assms])
  have 1: "replace ''Private Limited'' ''Pvt Ltd'' ?t = ?t"
    by (rule replace_absent[OF _ P]) simp
  have 2: "replace ''Pvt. Ltd'' ''Pvt Ltd'' ?t = ?t"
    by (rule replace_absent[OF _ P]) simp
  have 3: "replace ''Limited'' ''Ltd'' ?t = ?t"
    by (rule replace_absent[OF _ L]) simp
  have 4: "replace ''Ltd.'' ''Ltd'' ?t = ?t"
    by (rule replace_absent[OF _ L]) simp
  show ?thesis by (simp add: baseline_normalize_name_def 0 1 2 3 4 lower_idem)
qed

text \<open>
  C8. Name normalisation is idempotent: for every input (a string, or a value that is
  not a string), normalising the result of \<open>baseline_normalize_name\<close> gives that
  result again.
\<close>

theorem baseline_normalize_name_idempotent:
  "baseline_normalize_name (Some (baseline_normalize_name name)) = baseline_normalize_name name"
proof (cases name)
  case None
  have "no_edge_space []" by (simp add: no_edge_space_def)
  from normalize_fixed[OF this] show ?thesis
    using None by (simp add: baseline_normalize_name_def lower_def)
next
  case (Some s)
  let ?u = "replace ''Ltd.'' ''Ltd'' (replace ''Limited'' ''Ltd''
              (replace ''Pvt. Ltd'' ''Pvt Ltd'' (replace ''Private Limited'' ''Pvt Ltd'' (strip s))))"
  have sp: "\<not> is_space CHR ''P''" "\<not> is_space CHR ''L''" "\<not> is_space CHR ''d''"
    by (simp_all add: is_space_def)
  have "no_edge_space ?u"
    by (intro replace_no_edge_space strip_no_edge_space) (simp_all add: sp)
  from normalize_fixed[OF this] show ?thesis
    using Some by (simp add: baseline_normalize_name_def)
qed

section \<open>Sorting and deduplication: lemmas\<close>

lemma dds_member:
  "m \<in> set (drop_duplicates_seen seen ys) \<longleftrightarrow>
     m_payment_id m \<notin> set seen \<and> find (\<lambda>c. m_payment_id c = m_payment_id m) ys = Some m"
  by (induction ys arbitrary: seen) auto

lemma dds_ids:
  "m_payment_id ` set (drop_duplicates_seen seen ys) = m_payment_id ` set ys - set seen"
  by (induction ys arbitrary: seen) auto

lemma dds_distinct: "distinct (map m_payment_id (drop_duplicates_seen seen ys))"
  by (induction ys arbitrary: seen) (auto simp: dds_member)

lemma find_sorted_max:
  "sorted_wrt (\<lambda>a b. confidence b \<le> confidence a) ys \<Longrightarrow> find P ys = Some m \<Longrightarrow>
   c \<in> set ys \<Longrightarrow> P c \<Longrightarrow> confidence c \<le> confidence m"
  by (induction ys) (auto split: if_splits)

lemma find_filter: "find P (filter Q xs) = find (\<lambda>x. Q x \<and> P x) xs"
  by (induction xs) auto

lemma find_Some_filter:
  "find P ys = Some m \<Longrightarrow> Q m \<Longrightarrow> find P (filter Q ys) = Some m"
  by (induction ys) (auto split: if_splits)

lemma spec_set: "sort_values_spec srt \<Longrightarrow> set (srt xs) = set xs"
  unfolding sort_values_spec_def by (metis set_mset_mset)

lemma spec_sorted:
  "sort_values_spec srt \<Longrightarrow> sorted_wrt (\<lambda>a b. confidence b \<le> confidence a) (srt xs)"
  unfolding sort_values_spec_def by blast

lemma final_member:
  assumes "sort_values_spec srt"
  shows "m \<in> set (final_matches srt cs) \<longleftrightarrow>
         find (\<lambda>c. m_payment_id c = m_payment_id m) (srt cs) = Some m"
proof (cases "cs = []")
  case True
  have "set (srt []) = {}" using spec_set[OF assms, of "[]"] by simp
  then show ?thesis using True by (simp add: final_matches_def)
next
  case False
  then show ?thesis by (simp add: final_matches_def drop_duplicates_def dds_member)
qed

lemma final_subset:
  assumes "sort_values_spec srt"
  shows "set (final_matches srt cs) \<subseteq> set cs"
proof
  fix m assume "m \<in> set (final_matches srt cs)"
  then have "find (\<lambda>c. m_payment_id c = m_payment_id m) (srt cs) = Some m"
    by (simp add: final_member[OF assms])
  then have "m \<in> set (srt cs)" by (auto simp: find_Some_iff)
  then show "m \<in> set cs" by (simp add: spec_set[OF assms])
qed

lemma final_ids:
  assumes "sort_values_spec srt"
  shows "m_payment_id ` set (final_matches srt cs) = m_payment_id ` set cs"
proof (cases "cs = []")
  case True then show ?thesis by (simp add: final_matches_def)
next
  case False
  then show ?thesis
    using spec_set[OF assms, of cs]
    by (simp add: final_matches_def drop_duplicates_def dds_ids)
qed

lemma final_distinct: "distinct (map m_payment_id (final_matches srt cs))"
  by (simp add: final_matches_def drop_duplicates_def dds_distinct)

lemma final_max:
  assumes "sort_values_spec srt" "m \<in> set (final_matches srt cs)"
    "c \<in> set cs" "m_payment_id c = m_payment_id m"
  shows "confidence c \<le> confidence m"
proof -
  have f: "find (\<lambda>c. m_payment_id c = m_payment_id m) (srt cs) = Some m"
    using assms(1,2) by (simp add: final_member)
  have "c \<in> set (srt cs)" using assms(1,3) by (simp add: spec_set)
  from find_sorted_max[OF spec_sorted[OF assms(1)] f this assms(4)] show ?thesis .
qed

lemma final_stable:
  assumes "sort_values_spec srt" "stable_sort srt" "m \<in> set (final_matches srt cs)"
  shows "find (\<lambda>c. m_payment_id c = m_payment_id m \<and> confidence c = confidence m) cs = Some m"
proof -
  let ?Q = "\<lambda>c. confidence c = confidence m"
  let ?P = "\<lambda>c. m_payment_id c = m_payment_id m"
  have f: "find ?P (srt cs) = Some m" using assms(1,3) by (simp add: final_member)
  have "find ?P (filter ?Q (srt cs)) = Some m" by (rule find_Some_filter[OF f]) simp
  moreover have "filter ?Q (srt cs) = filter ?Q cs"
    using assms(2) unfolding stable_sort_def by blast
  ultimately have "find ?P (filter ?Q cs) = Some m" by simp
  then show ?thesis by (simp add: find_filter conj_commute)
qed

lemma sort_values_stable_spec: "sort_values_spec sort_values_stable"
  unfolding sort_values_spec_def sort_values_stable_def
proof (intro allI conjI)
  fix xs :: "match list"
  show "mset (sort_key (\<lambda>m. - confidence m) xs) = mset xs" by simp
  have "sorted (map (\<lambda>m. - confidence m) (sort_key (\<lambda>m. - confidence m) xs))"
    by (rule sorted_sort_key)
  then show "sorted_wrt (\<lambda>a b. confidence b \<le> confidence a) (sort_key (\<lambda>m. - confidence m) xs)"
    by (simp add: sorted_map)
qed

lemma sort_values_stable_stable: "stable_sort sort_values_stable"
  unfolding stable_sort_def sort_values_stable_def
proof (intro allI)
  fix xs :: "match list" and k
  have "filter (\<lambda>y. - confidence y = - k) (sort_key (\<lambda>m. - confidence m) xs)
        = filter (\<lambda>y. - confidence y = - k) xs"
    by (rule sort_key_stable)
  then show "filter (\<lambda>m. confidence m = k) (sort_key (\<lambda>m. - confidence m) xs)
        = filter (\<lambda>m. confidence m = k) xs" by simp
qed

section \<open>The run never fails\<close>

lemma iloc0_filter:
  "iloc0 (filter P xs) = (case find P xs of None \<Rightarrow> Inl IndexError | Some x \<Rightarrow> Inr x)"
  by (induction xs) (auto simp: iloc0_def)

lemma find_exists: "x \<in> set xs \<Longrightarrow> P x \<Longrightarrow> \<exists>y. find P xs = Some y"
  by (induction xs) auto

lemma remaining_row_found:
  assumes "find (\<lambda>p. payment_id p = m_payment_id row) payments = Some pay"
    and "find (\<lambda>i. invoice_id i = m_invoice_id row) invoices = Some invo"
  shows "remaining_row invoices payments row = Inr (expected_remainder invoices payments row)"
  using assms
  by (auto simp: remaining_row_def iloc0_filter nan_less_def nan_sub_def split: option.splits)

lemma remaining_records_found:
  assumes "\<forall>row \<in> set ms. (\<exists>pay. find (\<lambda>p. payment_id p = m_payment_id row) payments = Some pay)
      \<and> (\<exists>invo. find (\<lambda>i. invoice_id i = m_invoice_id row) invoices = Some invo)"
  shows "remaining_records invoices payments ms
         = Inr (concat (map (expected_remainder invoices payments) ms))"
  using assms
proof (induction ms)
  case Nil
  then show ?case by simp
next
  case (Cons row ms)
  from Cons.prems obtain pay invo where
    f: "find (\<lambda>p. payment_id p = m_payment_id row) payments = Some pay"
       "find (\<lambda>i. invoice_id i = m_invoice_id row) invoices = Some invo"
    by auto
  have ih: "remaining_records invoices payments ms
         = Inr (concat (map (expected_remainder invoices payments) ms))"
    using Cons by simp
  show ?case
    by (simp only: remaining_records.simps remaining_row_found[OF f] ih sum.case list.map concat.simps)
qed

lemma scan_member:
  "c \<in> set (scan body invoices payments) \<longleftrightarrow>
     (\<exists>pay \<in> set payments. \<exists>invo \<in> set invoices. c \<in> set (body pay invo))"
  by (auto simp: scan_def)

lemma direct_body_ids:
  "c \<in> set (direct_body pay invo) \<Longrightarrow> m_payment_id c = payment_id pay \<and> m_invoice_id c = invoice_id invo"
  by (auto simp: direct_body_def split: if_splits)

lemma amount_date_body_ids:
  "c \<in> set (amount_date_body pay invo) \<Longrightarrow> m_payment_id c = payment_id pay \<and> m_invoice_id c = invoice_id invo"
  by (auto simp: amount_date_body_def split: if_splits)

lemma name_amount_body_ids:
  "c \<in> set (name_amount_body pay invo) \<Longrightarrow> m_payment_id c = payment_id pay \<and> m_invoice_id c = invoice_id invo"
  by (auto simp: name_amount_body_def Let_def split: if_splits)

lemma candidates_ids:
  assumes "c \<in> set (candidates invoices payments)"
  shows "\<exists>pay \<in> set payments. \<exists>invo \<in> set invoices.
           m_payment_id c = payment_id pay \<and> m_invoice_id c = invoice_id invo"
  using assms unfolding candidates_def
  by (auto simp: scan_member dest: direct_body_ids amount_date_body_ids name_amount_body_ids)

lemma candidates_found:
  assumes "c \<in> set (candidates invoices payments)"
  shows "(\<exists>pay. find (\<lambda>p. payment_id p = m_payment_id c) payments = Some pay)
      \<and> (\<exists>invo. find (\<lambda>i. invoice_id i = m_invoice_id c) invoices = Some invo)"
proof -
  from candidates_ids[OF assms] obtain pay invo where
    "pay \<in> set payments" "invo \<in> set invoices"
    "m_payment_id c = payment_id pay" "m_invoice_id c = invoice_id invo" by blast
  then show ?thesis
    using find_exists[of pay payments "\<lambda>p. payment_id p = m_payment_id c"]
      find_exists[of invo invoices "\<lambda>i. invoice_id i = m_invoice_id c"] by simp
qed

lemma match_records_total:
  assumes "sort_values_spec srt"
  shows "match_records srt invoices payments =
     Inr (\<lparr>matches_df = final_matches srt (candidates invoices payments),
           unmatched_payments = filter (\<lambda>p. payment_id p \<notin> m_payment_id ` set (final_matches srt (candidates invoices payments))) payments,
           unmatched_invoices = filter (\<lambda>i. invoice_id i \<notin> m_invoice_id ` set (final_matches srt (candidates invoices payments))) invoices\<rparr>,
          report (concat (map (expected_remainder invoices payments)
                    (final_matches srt (candidates invoices payments)))))"
proof -
  let ?ms = "final_matches srt (candidates invoices payments)"
  have "\<forall>row \<in> set ?ms. (\<exists>pay. find (\<lambda>p. payment_id p = m_payment_id row) payments = Some pay)
      \<and> (\<exists>invo. find (\<lambda>i. invoice_id i = m_invoice_id row) invoices = Some invo)"
    using final_subset[OF assms, of "candidates invoices payments"] candidates_found by blast
  from remaining_records_found[OF this] show ?thesis
    by (simp add: match_records_def Let_def)
qed



lemma remaining_row_np_exact: "remaining_row_np nan_less nan_sub = remaining_row"
  by (intro ext) (simp add: remaining_row_np_def remaining_row_def)

lemma remaining_records_np_exact:
  "remaining_records_np nan_less nan_sub invoices payments ms = remaining_records invoices payments ms"
  by (induction ms) (simp_all add: remaining_row_np_exact split: sum.splits)


section \<open>The scans: lemmas\<close>

lemma final_single:
  assumes "sort_values_spec srt"
  shows "final_matches srt [c] = [c]"
proof -
  have "mset (srt [c]) = mset [c]" using assms unfolding sort_values_spec_def by blast
  then have "srt [c] = [c]" by simp
  then show ?thesis by (simp add: final_matches_def drop_duplicates_def)
qed

lemma concat_map_Nil: "concat (map (\<lambda>x. []) xs) = []"
  by (induction xs) simp_all

lemma candidates_no_invoices: "candidates [] payments = []"
  by (simp add: candidates_def scan_def concat_map_Nil)

lemma candidates_no_payments: "candidates invoices [] = []"
  by (simp add: candidates_def scan_def)

lemma contains_iff: "contains t s \<longleftrightarrow> (\<exists>pre suf. t = pre @ s @ suf)"
proof (induction t)
  case Nil
  then show ?case by auto
next
  case (Cons c t)
  show ?case
  proof
    assume "contains (c # t) s"
    then consider "prefix s (c # t)" | "contains t s" by auto
    then show "\<exists>pre suf. c # t = pre @ s @ suf"
    proof cases
      case 1
      then obtain suf where "c # t = s @ suf" by (auto simp: prefix_def)
      then have "c # t = [] @ s @ suf" by simp
      then show ?thesis by blast
    next
      case 2
      then obtain pre suf where "t = pre @ s @ suf" using Cons.IH by blast
      then have "c # t = (c # pre) @ s @ suf" by simp
      then show ?thesis by blast
    qed
  next
    assume "\<exists>pre suf. c # t = pre @ s @ suf"
    then obtain pre suf where e: "c # t = pre @ s @ suf" by blast
    show "contains (c # t) s"
    proof (cases pre)
      case Nil
      then have "prefix s (c # t)" using e by (simp add: prefix_def)
      then show ?thesis by simp
    next
      case (Cons a pre')
      then have "t = pre' @ s @ suf" using e by simp
      then have "contains t s" using Cons.IH by blast
      then show ?thesis by simp
    qed
  qed
qed

lemma direct_body_label:
  "m \<in> set (direct_body pay invo) \<Longrightarrow>
     confidence m = 1 \<and> rationale m = ''Direct invoice_id found in memo/reference''"
  by (auto simp: direct_body_def split: if_splits)

lemma amount_date_body_label:
  "m \<in> set (amount_date_body pay invo) \<Longrightarrow>
     confidence m = 8 / 10 \<and> rationale m = ''Exact amount and near-date ('' @ [CHR 0xB1] @ ''7 days)''"
  by (auto simp: amount_date_body_def split: if_splits)

lemma name_amount_body_label:
  "m \<in> set (name_amount_body pay invo) \<Longrightarrow>
     (confidence m, rationale m) \<in>
       {(7 / 10, ''Name-normalized and amount match''),
        (5 / 10, ''Partial payment - lower amount''),
        (4 / 10, ''Overpayment - higher amount'')}"
  by (auto simp: name_amount_body_def Let_def split: if_splits)

text \<open>
  The direct scan, pair by pair: a candidate of confidence 1 for exactly the pairs whose
  invoice id occurs in the search text, and the search text by the three kinds of cell.
\<close>

lemma direct_scan_member:
  "c \<in> set (scan direct_body invoices payments) \<longleftrightarrow>
     (\<exists>pay \<in> set payments. \<exists>invo \<in> set invoices.
        (\<exists>pre suf. memo_text pay = pre @ invoice_id invo @ suf)
        \<and> c = \<lparr>m_payment_id = payment_id pay, m_invoice_id = invoice_id invo, confidence = 1,
                 rationale = ''Direct invoice_id found in memo/reference''\<rparr>)"
  unfolding scan_member direct_body_def contains_iff[symmetric] by auto

lemma memo_text_cases:
  "memo_text pay =
     (case memo pay of None \<Rightarrow> [] | Some PyNaN \<Rightarrow> ''nan'' | Some (PyStr s) \<Rightarrow> s)
     @ '' '' @
     (case reference_number pay of None \<Rightarrow> [] | Some PyNaN \<Rightarrow> ''nan'' | Some (PyStr s) \<Rightarrow> s)"
  by (simp add: memo_text_def split: option.splits pyval.splits)

section \<open>Evaluations of the concrete inputs\<close>

lemma tie_candidates: "candidates [inv_a, inv_b] [pay_t] = [match_a, match_b]"
  by code_simp

lemma tie_stable: "match_records sort_values_stable [inv_a, inv_b] [pay_t]
   = Inr (\<lparr>matches_df = [match_a], unmatched_payments = [], unmatched_invoices = [inv_b]\<rparr>, [PrintNone])"
  by code_simp

lemma tie_facts:
  "m_payment_id match_a = ''PAY-T''" "m_payment_id match_b = ''PAY-T''"
  "confidence match_a = 1" "confidence match_b = 1" "match_b \<noteq> match_a"
  by (simp_all add: match_a_def match_b_def)

lemma scen_b_candidates: "candidates [inv2] [pay2] = [match2]"
  by code_simp

lemma scen_b_scans:
  "scan direct_body [inv2] [pay2] = []" "scan amount_date_body [inv2] [pay2] = []"
  "scan name_amount_body [inv2] [pay2] = [match2]"
  by code_simp+

lemma scen_b_names:
  "baseline_normalize_name (customer_name inv2) = ''acme pvt ltd''"
  "baseline_normalize_name (payer_name pay2) = ''acme pvt ltd''"
  by code_simp+

lemma scen_b_stable: "match_records sort_values_stable [inv2] [pay2]
   = Inr (\<lparr>matches_df = [match2], unmatched_payments = [], unmatched_invoices = []\<rparr>,
      [MakeDirs ''out'', ToCsv ''out/remaining_payments.csv'' [remainder2], PrintSaved])"
  by code_simp

lemma scen_b_expected: "expected_remainder [inv2] [pay2] match2 = [remainder2]"
  by code_simp

lemma scen_a_scans:
  "scan direct_body [inv1] [pay1] =
     [\<lparr>m_payment_id = ''PAY-1'', m_invoice_id = ''INV-1'', confidence = 1,
       rationale = ''Direct invoice_id found in memo/reference''\<rparr>]"
  "scan amount_date_body [inv1] [pay1] =
     [\<lparr>m_payment_id = ''PAY-1'', m_invoice_id = ''INV-1'', confidence = 8 / 10,
       rationale = ''Exact amount and near-date ('' @ [CHR 0xB1] @ ''7 days)''\<rparr>]"
  "scan name_amount_body [inv1] [pay1] =
     [\<lparr>m_payment_id = ''PAY-1'', m_invoice_id = ''INV-1'', confidence = 7 / 10,
       rationale = ''Name-normalized and amount match''\<rparr>]"
  by code_simp+


lemma nan_eval:
  "memo_text pay_nan = ''nan nan''"
  "direct_body pay_nan inv_an =
     [\<lparr>m_payment_id = ''PAY-N'', m_invoice_id = ''an'', confidence = 1,
       rationale = ''Direct invoice_id found in memo/reference''\<rparr>]"
  "\<not> contains '' '' (invoice_id inv_an)"
  "amount_date_body pay_nan inv_an = []" "name_amount_body pay_nan inv_an = []"
  "baseline_normalize_name (payer_name pay_nan) = baseline_normalize_name (customer_name inv_an)"
  by code_simp+



lemma acme_candidates:
  "candidates acme_invoices acme_payments =
     map (\<lambda>i. \<lparr>m_payment_id = ''PAY-1'', m_invoice_id = i, confidence = 5 / 10,
                rationale = ''Partial payment - lower amount''\<rparr>) acme_ids
     @ map (\<lambda>i. \<lparr>m_payment_id = ''PAY-2'', m_invoice_id = i, confidence = 7 / 10,
                rationale = ''Name-normalized and amount match''\<rparr>) acme_ids"
  by code_simp

lemma acme_stable:
  "map (\<lambda>m. (m_payment_id m, m_invoice_id m))
     (final_matches sort_values_stable (candidates acme_invoices acme_payments))
   = [(''PAY-2'', ''INV-01''), (''PAY-1'', ''INV-01'')]"
  by code_simp

section \<open>The claims\<close>

text \<open>
  C1. Whatever sorting function keeps the promise of \<open>sort_values_spec\<close>, the run
  returns, and for every candidate \<open>c\<close> the final frame holds a row \<open>m\<close> for the payment
  of \<open>c\<close> that is one of the candidates and whose confidence is the maximum over all
  candidates of that payment. When the sorting function is stable, \<open>m\<close> is the
  earliest-generated candidate of that payment with that confidence. Line 122 asks for
  the default sorting kind, which is not a stable one, so the source does not secure the
  earliest candidate on ties: on \<open>acme_invoices\<close> and \<open>acme_payments\<close> the ten candidates of
  each payment tie (\<open>acme_candidates\<close>), a stable order keeps \<open>INV-01\<close> for both payments
  (\<open>acme_stable\<close>), and the row kept is whichever of the ten the sort puts first
  (\<open>final_member\<close>).
\<close>

theorem final_match_max_confidence:
  assumes "sort_values_spec srt" and "c \<in> set (candidates invoices payments)"
  shows "\<exists>out eff m. match_records srt invoices payments = Inr (out, eff)
      \<and> m \<in> set (matches_df out) \<and> m_payment_id m = m_payment_id c
      \<and> m \<in> set (candidates invoices payments)
      \<and> confidence m = Max (confidence ` {c' \<in> set (candidates invoices payments).
                                           m_payment_id c' = m_payment_id c})
      \<and> (stable_sort srt \<longrightarrow>
           find (\<lambda>c'. m_payment_id c' = m_payment_id c \<and> confidence c' = confidence m)
             (candidates invoices payments) = Some m)"
proof -
  let ?cs = "candidates invoices payments"
  let ?ms = "final_matches srt ?cs"
  have "m_payment_id c \<in> m_payment_id ` set ?ms"
    using assms(2) by (simp add: final_ids[OF assms(1)])
  then obtain m where m: "m \<in> set ?ms" "m_payment_id m = m_payment_id c" by auto
  have mc: "m \<in> set ?cs" using final_subset[OF assms(1)] m(1) by blast
  let ?S = "confidence ` {c' \<in> set ?cs. m_payment_id c' = m_payment_id c}"
  have "Max ?S = confidence m"
  proof (rule Max_eqI)
    show "finite ?S" by simp
    show "confidence m \<in> ?S" using mc m(2) by auto
    fix y assume "y \<in> ?S"
    then obtain c' where "c' \<in> set ?cs" "m_payment_id c' = m_payment_id m" "y = confidence c'"
      using m(2) by auto
    then show "y \<le> confidence m" using final_max[OF assms(1) m(1)] by simp
  qed
  moreover have "stable_sort srt \<longrightarrow>
      find (\<lambda>c'. m_payment_id c' = m_payment_id c \<and> confidence c' = confidence m) ?cs = Some m"
    using final_stable[OF assms(1) _ m(1)] m(2) by simp
  ultimately show ?thesis
    using m mc by (subst match_records_total[OF assms(1)]) auto
qed

text \<open>With a stable sort, the payment that names two invoices keeps the first of them.\<close>

theorem final_match_max_confidence_witness:
  "sort_values_spec sort_values_stable \<and> stable_sort sort_values_stable
   \<and> match_b \<in> set (candidates [inv_a, inv_b] [pay_t])
   \<and> (\<exists>out eff. match_records sort_values_stable [inv_a, inv_b] [pay_t] = Inr (out, eff)
         \<and> match_a \<in> set (matches_df out) \<and> confidence match_a = 1)"
proof -
  have b: "match_b \<in> set (candidates [inv_a, inv_b] [pay_t])" by (simp add: tie_candidates)
  from final_match_max_confidence[OF sort_values_stable_spec b]
  obtain out eff m where
    r: "match_records sort_values_stable [inv_a, inv_b] [pay_t] = Inr (out, eff)"
    and m: "m \<in> set (matches_df out)" "m \<in> set (candidates [inv_a, inv_b] [pay_t])"
    and f: "stable_sort sort_values_stable \<longrightarrow>
      find (\<lambda>c'. m_payment_id c' = m_payment_id match_b \<and> confidence c' = confidence m)
        (candidates [inv_a, inv_b] [pay_t]) = Some m"
    by blast
  have "confidence m = 1" using m(2) by (auto simp: tie_candidates tie_facts)
  then have "m = match_a"
    using f sort_values_stable_stable by (simp add: tie_candidates tie_facts)
  then show ?thesis
    using r m(1) b sort_values_stable_spec sort_values_stable_stable
    by (auto simp: tie_facts)
qed

text \<open>
  C2. No two rows of the final frame share a payment id; the payment ids of the final
  frame are those of the candidates, so every payment with a candidate has exactly one
  row; and the number of rows is the number of distinct payment ids with a candidate
  (so it is at most that number).
\<close>

theorem one_final_match_per_payment:
  assumes "sort_values_spec srt"
  shows "\<exists>out eff. match_records srt invoices payments = Inr (out, eff)
      \<and> distinct (map m_payment_id (matches_df out))
      \<and> m_payment_id ` set (matches_df out) = m_payment_id ` set (candidates invoices payments)
      \<and> length (matches_df out) = card (m_payment_id ` set (candidates invoices payments))
      \<and> length (matches_df out) \<le> card (m_payment_id ` set (candidates invoices payments))"
proof -
  let ?cs = "candidates invoices payments"
  let ?ms = "final_matches srt ?cs"
  have d: "distinct (map m_payment_id ?ms)" by (rule final_distinct)
  have i: "m_payment_id ` set ?ms = m_payment_id ` set ?cs" by (rule final_ids[OF assms])
  have "card (set (map m_payment_id ?ms)) = length (map m_payment_id ?ms)"
    by (rule distinct_card[OF d])
  then have l: "length ?ms = card (m_payment_id ` set ?cs)" using i by simp
  show ?thesis
    using d i l by (subst match_records_total[OF assms]) simp
qed

text \<open>Two candidates for one payment leave one row.\<close>

theorem one_final_match_per_payment_witness:
  "sort_values_spec sort_values_stable
   \<and> length (candidates [inv_a, inv_b] [pay_t]) = 2
   \<and> (\<exists>out eff. match_records sort_values_stable [inv_a, inv_b] [pay_t] = Inr (out, eff)
         \<and> map m_payment_id (matches_df out) = [''PAY-T''])"
proof -
  from one_final_match_per_payment[OF sort_values_stable_spec, of "[inv_a, inv_b]" "[pay_t]"]
  obtain out eff where
    r: "match_records sort_values_stable [inv_a, inv_b] [pay_t] = Inr (out, eff)"
    and i: "m_payment_id ` set (matches_df out) = m_payment_id ` set (candidates [inv_a, inv_b] [pay_t])"
    and l: "length (matches_df out) = card (m_payment_id ` set (candidates [inv_a, inv_b] [pay_t]))"
    by blast
  have "length (matches_df out) = 1" using l by (simp add: tie_candidates tie_facts)
  then obtain m where "matches_df out = [m]" by (cases "matches_df out") auto
  then have "map m_payment_id (matches_df out) = [''PAY-T'']"
    using i by (auto simp: tie_candidates tie_facts)
  then show ?thesis using r sort_values_stable_spec by (simp add: tie_candidates)
qed




text \<open>
  C4 (as amended). The run returns three collections: the final matches, the payments
  whose id is not among the final matches' payment ids, and the invoices whose id is not
  among their invoice ids. The remainder records are not returned: when there is at
  least one, the function creates the directory \<open>out\<close>, writes them to
  \<open>out/remaining_payments.csv\<close> and prints a message; when there is none, it prints
  another message.
\<close>

theorem remainders_written_not_returned:
  assumes "sort_values_spec srt"
  shows "\<exists>out eff rem. match_records srt invoices payments = Inr (out, eff)
      \<and> unmatched_payments out
          = filter (\<lambda>p. payment_id p \<notin> m_payment_id ` set (matches_df out)) payments
      \<and> unmatched_invoices out
          = filter (\<lambda>i. invoice_id i \<notin> m_invoice_id ` set (matches_df out)) invoices
      \<and> remaining_records invoices payments (matches_df out) = Inr rem
      \<and> eff = (if rem = [] then [PrintNone]
               else [MakeDirs ''out'', ToCsv ''out/remaining_payments.csv'' rem, PrintSaved])"
proof -
  let ?ms = "final_matches srt (candidates invoices payments)"
  define rem0 where "rem0 = concat (map (expected_remainder invoices payments) ?ms)"
  have f: "\<forall>row \<in> set ?ms.
            (\<exists>pay. find (\<lambda>p. payment_id p = m_payment_id row) payments = Some pay)
          \<and> (\<exists>invo. find (\<lambda>i. invoice_id i = m_invoice_id row) invoices = Some invo)"
    using final_subset[OF assms, of "candidates invoices payments"] candidates_found by blast
  have r: "remaining_records invoices payments ?ms = Inr rem0"
    unfolding rem0_def by (rule remaining_records_found[OF f])
  have t: "match_records srt invoices payments =
     Inr (\<lparr>matches_df = ?ms,
           unmatched_payments = filter (\<lambda>p. payment_id p \<notin> m_payment_id ` set ?ms) payments,
           unmatched_invoices = filter (\<lambda>i. invoice_id i \<notin> m_invoice_id ` set ?ms) invoices\<rparr>,
          report rem0)"
    unfolding rem0_def by (rule match_records_total[OF assms])
  show ?thesis
    unfolding t using r by (simp add: report_def)
qed

text \<open>Scenario B: the record is written to the file.\<close>

theorem remainders_written_not_returned_witness:
  "sort_values_spec sort_values_stable
   \<and> (\<exists>out. match_records sort_values_stable [inv2] [pay2]
         = Inr (out, [MakeDirs ''out'', ToCsv ''out/remaining_payments.csv'' [remainder2],
                      PrintSaved]))"
proof -
  from remainders_written_not_returned[OF sort_values_stable_spec, of "[inv2]" "[pay2]"]
  obtain out eff rem where
    r: "match_records sort_values_stable [inv2] [pay2] = Inr (out, eff)"
    and q: "remaining_records [inv2] [pay2] (matches_df out) = Inr rem"
    and e: "eff = (if rem = [] then [PrintNone]
               else [MakeDirs ''out'', ToCsv ''out/remaining_payments.csv'' rem, PrintSaved])"
    by blast
  have m: "matches_df out = [match2]" using r by (auto simp: scen_b_stable)
  have "remaining_records [inv2] [pay2] [match2] = Inr [remainder2]" by code_simp
  then have "rem = [remainder2]" using q m by simp
  then show ?thesis using r e sort_values_stable_spec by simp
qed

text \<open>
  Scenario B: the value returned holds three collections, none of them the remainders,
  and the run writes the remainder record to \<open>out/remaining_payments.csv\<close>.
\<close>

theorem remainders_written_counterexample:
  "match_records sort_values_stable [inv2] [pay2]
   = Inr (\<lparr>matches_df = [match2], unmatched_payments = [], unmatched_invoices = []\<rparr>,
          [MakeDirs ''out'', ToCsv ''out/remaining_payments.csv'' [remainder2], PrintSaved])"
  by (rule scen_b_stable)

text \<open>
  C5. The search text is the memo and the reference number, each rendered as text, joined
  by one space; a key that is absent gives the empty string. A cell that holds the
  missing-value marker is not treated as empty: it is rendered as \<open>nan\<close>. For the
  payment \<open>pay_nan\<close>, whose memo and reference cells are empty in the file, the search text
  is \<open>nan nan\<close>, and the invoice with the id \<open>an\<close> gets a candidate of confidence 1,
  although \<open>an\<close> does not occur in the text of two empty strings joined by a space.
\<close>

theorem nan_memo_matches_invoice:
  "memo pay_nan = Some PyNaN \<and> reference_number pay_nan = Some PyNaN
   \<and> memo_text pay_nan = ''nan nan''
   \<and> invoice_id inv_an = ''an''
   \<and> direct_body pay_nan inv_an =
       [\<lparr>m_payment_id = ''PAY-N'', m_invoice_id = ''an'', confidence = 1,
         rationale = ''Direct invoice_id found in memo/reference''\<rparr>]
   \<and> \<not> contains ('''' @ '' '' @ '''') (invoice_id inv_an)"
  using nan_eval(1,2,3) by (simp add: pay_nan_def inv_an_def)

text \<open>
  C6 (as amended). Every candidate carries the label and the confidence of its branch and
  no other: \<open>Direct invoice_id found in memo/reference\<close> with 1 from the direct scan,
  \<open>Exact amount and near-date (+-7 days)\<close> (with the plus-minus sign, code point 177) with
  0.8 from the amount and date scan, and from the name scan
  \<open>Name-normalized and amount match\<close> with 0.7, \<open>Partial payment - lower amount\<close> with 0.5
  or \<open>Overpayment - higher amount\<close> with 0.4; the candidates are those of the three scans.
\<close>

theorem candidate_labels:
  "(m \<in> set (scan direct_body invoices payments) \<longrightarrow>
      confidence m = 1 \<and> rationale m = ''Direct invoice_id found in memo/reference'')
   \<and> (m \<in> set (scan amount_date_body invoices payments) \<longrightarrow>
      confidence m = 8 / 10
      \<and> rationale m = ''Exact amount and near-date ('' @ [CHR 0xB1] @ ''7 days)'')
   \<and> (m \<in> set (scan name_amount_body invoices payments) \<longrightarrow>
      (confidence m, rationale m) \<in>
        {(7 / 10, ''Name-normalized and amount match''),
         (5 / 10, ''Partial payment - lower amount''),
         (4 / 10, ''Overpayment - higher amount'')})
   \<and> set (candidates invoices payments)
       = set (scan direct_body invoices payments)
         \<union> set (scan amount_date_body invoices payments)
         \<union> set (scan name_amount_body invoices payments)"
proof (intro conjI impI)
  assume "m \<in> set (scan direct_body invoices payments)"
  then obtain pay invo where "m \<in> set (direct_body pay invo)" by (auto simp: scan_member)
  from direct_body_label[OF this]
  show "confidence m = 1" "rationale m = ''Direct invoice_id found in memo/reference''"
    by simp_all
next
  assume "m \<in> set (scan amount_date_body invoices payments)"
  then obtain pay invo where "m \<in> set (amount_date_body pay invo)" by (auto simp: scan_member)
  from amount_date_body_label[OF this]
  show "confidence m = 8 / 10"
    "rationale m = ''Exact amount and near-date ('' @ [CHR 0xB1] @ ''7 days)''"
    by simp_all
next
  assume "m \<in> set (scan name_amount_body invoices payments)"
  then obtain pay invo where "m \<in> set (name_amount_body pay invo)" by (auto simp: scan_member)
  from name_amount_body_label[OF this]
  show "(confidence m, rationale m) \<in>
        {(7 / 10, ''Name-normalized and amount match''),
         (5 / 10, ''Partial payment - lower amount''),
         (4 / 10, ''Overpayment - higher amount'')}" .
next
  show "set (candidates invoices payments)
       = set (scan direct_body invoices payments)
         \<union> set (scan amount_date_body invoices payments)
         \<union> set (scan name_amount_body invoices payments)"
    by (simp add: candidates_def Un_assoc)
qed

text \<open>The candidate of scenario B and the first candidate of \<open>PAY-T\<close>.\<close>

theorem candidate_labels_witness:
  "match2 \<in> set (scan name_amount_body [inv2] [pay2])
   \<and> (confidence match2, rationale match2) \<in>
        {(7 / 10, ''Name-normalized and amount match''),
         (5 / 10, ''Partial payment - lower amount''),
         (4 / 10, ''Overpayment - higher amount'')}
   \<and> match_a \<in> set (scan direct_body [inv_a, inv_b] [pay_t])
   \<and> rationale match_a = ''Direct invoice_id found in memo/reference''"
proof -
  have 1: "match2 \<in> set (scan name_amount_body [inv2] [pay2])" by (simp add: scen_b_scans)
  have "scan direct_body [inv_a, inv_b] [pay_t] = [match_a, match_b]" by code_simp
  then have 2: "match_a \<in> set (scan direct_body [inv_a, inv_b] [pay_t])" by simp
  show ?thesis
    using candidate_labels[of match2 "[inv2]" "[pay2]"]
      candidate_labels[of match_a "[inv_a, inv_b]" "[pay_t]"] 1 2
    by blast
qed

text \<open>Scenario A: three candidates, none with a label of the specification.\<close>

theorem candidate_labels_counterexample:
  "map rationale (candidates [inv1] [pay1])
     = [''Direct invoice_id found in memo/reference'',
        ''Exact amount and near-date ('' @ [CHR 0xB1] @ ''7 days)'',
        ''Name-normalized and amount match'']
   \<and> set (map rationale (candidates [inv1] [pay1]))
       \<inter> {''direct_reference'', ''amount_date_proximity'', ''name_amount_exact'',
          ''name_partial_payment'', ''name_overpayment''} = {}"
  by (simp add: candidates_def scen_a_scans)

text \<open>
  C7. When an amount or a date of a pair is missing, the amount and date scan appends
  nothing for the pair; when an amount is missing, the name scan appends nothing for the
  pair; every comparison with a missing operand is false, and a difference with a missing
  operand is missing; and the run returns a value and raises nothing, whatever the input,
  for every sorting function that keeps the promise of \<open>sort_values_spec\<close>.
\<close>

theorem missing_values_never_match:
  "(payment_amount pay = None \<or> invoice_amount invo = None
      \<or> payment_date pay = None \<or> invoice_date invo = None
      \<longrightarrow> amount_date_body pay invo = [])
   \<and> (payment_amount pay = None \<or> invoice_amount invo = None
      \<longrightarrow> name_amount_body pay invo = [])
   \<and> \<not> nan_less None x \<and> \<not> nan_less x None \<and> \<not> nan_le None x \<and> \<not> nan_le x None
   \<and> nan_abs (days (nan_sub None d)) = None \<and> nan_abs (days (nan_sub d None)) = None
   \<and> nan_abs (nan_sub None x) = None \<and> nan_abs (nan_sub x None) = None
   \<and> (sort_values_spec srt \<longrightarrow>
        (\<exists>out eff. match_records srt invoices payments = Inr (out, eff)))"
proof -
  have c: "\<not> nan_less None x" "\<not> nan_less x None" "\<not> nan_le None x" "\<not> nan_le x None"
    by (simp_all add: nan_less_def nan_le_def split: option.splits)
  have s: "nan_abs (days (nan_sub None d)) = None" "nan_abs (days (nan_sub d None)) = None"
    "nan_abs (nan_sub None x) = None" "nan_abs (nan_sub x None) = None"
    by (simp_all add: nan_abs_def days_def nan_sub_def split: option.splits)
  have a: "payment_amount pay = None \<or> invoice_amount invo = None
      \<or> payment_date pay = None \<or> invoice_date invo = None
      \<longrightarrow> amount_date_body pay invo = []"
    by (auto simp: amount_date_body_def nan_less_def nan_le_def nan_abs_def days_def nan_sub_def
        split: option.splits)
  have n: "payment_amount pay = None \<or> invoice_amount invo = None
      \<longrightarrow> name_amount_body pay invo = []"
    by (auto simp: name_amount_body_def Let_def nan_less_def nan_abs_def nan_sub_def
        split: option.splits)
  have t: "sort_values_spec srt \<longrightarrow>
        (\<exists>out eff. match_records srt invoices payments = Inr (out, eff))"
    using match_records_total[of srt invoices payments] by blast
  show ?thesis using c s a n t by blast
qed

text \<open>
  A pair with equal currency, equal date and equal normalised names, whose payment has
  no amount: neither scan appends a candidate.
\<close>

theorem missing_values_never_match_witness:
  "payment_amount pay_nan = None
   \<and> invoice_currency inv_an = payment_currency pay_nan
   \<and> invoice_date inv_an = payment_date pay_nan
   \<and> baseline_normalize_name (payer_name pay_nan) = baseline_normalize_name (customer_name inv_an)
   \<and> amount_date_body pay_nan inv_an = [] \<and> name_amount_body pay_nan inv_an = []
   \<and> sort_values_spec sort_values_stable
   \<and> (\<exists>out eff. match_records sort_values_stable [inv_an] [pay_nan] = Inr (out, eff))"
proof -
  have a: "payment_amount pay_nan = None" by (simp add: pay_nan_def)
  have b: "invoice_currency inv_an = payment_currency pay_nan"
    "invoice_date inv_an = payment_date pay_nan"
    by (simp_all add: pay_nan_def inv_an_def)
  show ?thesis
    using missing_values_never_match[of pay_nan inv_an _ _ sort_values_stable "[inv_an]" "[pay_nan]"]
      a b nan_eval(6) sort_values_stable_spec
    by blast
qed

text \<open>
  C9 (as amended). On invoice INV-2 and payment PAY-2 only the name scan appends a
  candidate: the names normalise to the same string, the payment's amount is below the
  invoice's, the single final match has confidence 0.5 and the rationale
  \<open>Partial payment - lower amount\<close>, and one remainder record with 20 remaining is
  produced (and written to the file).
\<close>

theorem scenario_b_partial_payment:
  assumes "sort_values_spec srt"
  shows "scan direct_body [inv2] [pay2] = []
      \<and> scan amount_date_body [inv2] [pay2] = []
      \<and> scan name_amount_body [inv2] [pay2] = [match2]
      \<and> baseline_normalize_name (customer_name inv2) = baseline_normalize_name (payer_name pay2)
      \<and> nan_less (payment_amount pay2) (invoice_amount inv2)
      \<and> confidence match2 = 5 / 10
      \<and> rationale match2 = ''Partial payment - lower amount''
      \<and> remaining_amount remainder2 = Some 20
      \<and> match_records srt [inv2] [pay2]
          = Inr (\<lparr>matches_df = [match2], unmatched_payments = [], unmatched_invoices = []\<rparr>,
                 [MakeDirs ''out'', ToCsv ''out/remaining_payments.csv'' [remainder2],
                  PrintSaved])"
proof -
  have f: "final_matches srt (candidates [inv2] [pay2]) = [match2]"
    by (simp add: scen_b_candidates final_single[OF assms])
  have ids: "m_payment_id match2 = ''PAY-2''" "m_invoice_id match2 = ''INV-2''"
    "payment_id pay2 = ''PAY-2''" "invoice_id inv2 = ''INV-2''"
    by (simp_all add: match2_def pay2_def inv2_def)
  have m: "match_records srt [inv2] [pay2]
          = Inr (\<lparr>matches_df = [match2], unmatched_payments = [], unmatched_invoices = []\<rparr>,
                 [MakeDirs ''out'', ToCsv ''out/remaining_payments.csv'' [remainder2],
                  PrintSaved])"
    unfolding match_records_total[OF assms] f
    using scen_b_expected by (simp add: report_def ids)
  have l: "nan_less (payment_amount pay2) (invoice_amount inv2)"
    by (simp add: nan_less_def pay2_def inv2_def)
  have v: "confidence match2 = 5 / 10" "rationale match2 = ''Partial payment - lower amount''"
    "remaining_amount remainder2 = Some 20"
    by (simp_all add: match2_def remainder2_def)
  show ?thesis
    using scen_b_scans scen_b_names l v m by simp
qed

text \<open>The result with a stable sorting function.\<close>

theorem scenario_b_partial_payment_witness:
  "sort_values_spec sort_values_stable
   \<and> match_records sort_values_stable [inv2] [pay2]
       = Inr (\<lparr>matches_df = [match2], unmatched_payments = [], unmatched_invoices = []\<rparr>,
              [MakeDirs ''out'', ToCsv ''out/remaining_payments.csv'' [remainder2],
               PrintSaved])"
  using scenario_b_partial_payment[OF sort_values_stable_spec]
    sort_values_stable_spec
  by blast

text \<open>The rationale of the final match of scenario B is not \<open>name_partial_payment\<close>.\<close>

theorem scenario_b_label_counterexample:
  "map rationale (matches_df (fst (projr (match_records sort_values_stable [inv2] [pay2]))))
     = [''Partial payment - lower amount'']
   \<and> ''Partial payment - lower amount'' \<noteq> ''name_partial_payment''"
  by (simp add: scen_b_stable match2_def)

text \<open>
  C10. When the scans append no candidate, the run returns, for any sorting function, an
  empty final frame, all payments as unmatched payments, all invoices as unmatched
  invoices, and there is no remainder record (only the message that there is none is
  printed). An empty list of invoices or of payments gives no candidate.
\<close>

theorem no_candidates_all_unmatched:
  "(candidates invoices payments = [] \<longrightarrow>
      match_records srt invoices payments
        = Inr (\<lparr>matches_df = [], unmatched_payments = payments, unmatched_invoices = invoices\<rparr>,
               [PrintNone]))
   \<and> remaining_records invoices payments [] = Inr []
   \<and> candidates [] payments = []
   \<and> candidates invoices [] = []"
  by (simp add: match_records_def final_matches_def report_def
      candidates_no_invoices candidates_no_payments)

text \<open>No invoice at all; and one invoice with one payment that no scan pairs.\<close>

theorem no_candidates_all_unmatched_witness:
  "candidates [] [pay2] = []
   \<and> match_records sort_values_stable [] [pay2]
       = Inr (\<lparr>matches_df = [], unmatched_payments = [pay2], unmatched_invoices = []\<rparr>,
              [PrintNone])
   \<and> candidates [inv9] [pay_nan] = []
   \<and> match_records sort_values_stable [inv9] [pay_nan]
       = Inr (\<lparr>matches_df = [], unmatched_payments = [pay_nan], unmatched_invoices = [inv9]\<rparr>,
              [PrintNone])"
proof -
  have e: "candidates [inv9] [pay_nan] = []" by code_simp
  show ?thesis
    using no_candidates_all_unmatched[of "[]" "[pay2]" sort_values_stable]
      no_candidates_all_unmatched[of "[inv9]" "[pay_nan]" sort_values_stable] e
    by simp
qed

end
